theory Spec2Isabelle
  imports Main "HOL-Library.Word" "HOL-Library.Multiset"
begin

unbundle bit_operations_syntax

section \<open>Machine types and errors\<close>

text \<open>
  C++ \<^verbatim>\<open>int\<close> is a 32-bit two's complement value, \<^verbatim>\<open>uint32_t\<close> and
  \<^verbatim>\<open>socklen_t\<close> are 32-bit unsigned, \<^verbatim>\<open>std::size_t\<close> is 64-bit unsigned
  (the library is Linux/x86-64 only). Signed comparisons are \<open><=s\<close> and \<open><s\<close>,
  \<open>sint\<close> reads the signed value.
\<close>

type_synonym int32 = "32 word"
type_synonym uint32 = "32 word"
type_synonym size_t = "64 word"
type_synonym socklen_t = "32 word"

text \<open>
  Modelled from the spec: \<^verbatim>\<open>make_sys_error\<close> and the error type behind
  \<^verbatim>\<open>Result<T>\<close> live in \<^verbatim>\<open>zedio/common/error.hpp\<close>, which is not among the
  sources. The spec calls the result "an error whose kind is the negated value interpreted
  as a system error code", and \<^verbatim>\<open>Connect::await_suspend\<close> reads the code back with
  \<^verbatim>\<open>.value()\<close>: an error is the system error code it was made from.
  \<^verbatim>\<open>Result<T>\<close> is \<open>error + T\<close>, with \<open>Inl\<close> the \<^verbatim>\<open>std::unexpected\<close> side.
\<close>

datatype error = SysError (error_value: int32)

definition make_sys_error :: "int32 \<Rightarrow> error" where
  "make_sys_error code = SysError code"

text \<open>
  A data member the source writes with a trailing underscore (\<^verbatim>\<open>fd_\<close>,
  \<^verbatim>\<open>addr_\<close>, \<^verbatim>\<open>result_\<close>) keeps its name without the underscore: an
  Isabelle name cannot end in one.
\<close>

text \<open>The \<^verbatim>\<open>errno\<close> values and socket flags the sources name (Linux).\<close>

definition EINTR :: int32 where "EINTR = 4"
definition EMFILE :: int32 where "EMFILE = 24"
definition SOCK_NONBLOCK :: int32 where "SOCK_NONBLOCK = 2048"

section \<open>Config (zedio/async/config.hpp)\<close>

record Config =
  num_worker :: size_t
  check_io_interval :: uint32
  check_global_interval :: uint32
  ring_entries :: size_t
  io_uring_flags :: uint32

text \<open>
  The default member initialisers. \<^verbatim>\<open>std::thread::hardware_concurrency()\<close> returns
  an \<^verbatim>\<open>unsigned int\<close> that the machine decides; it is the parameter \<open>hc\<close>, widened
  to \<^verbatim>\<open>std::size_t\<close>.
\<close>

definition Config_default :: "uint32 \<Rightarrow> Config" where
  "Config_default hc =
     \<lparr> num_worker = ucast hc,
       check_io_interval = 61,
       check_global_interval = 61,
       ring_entries = 1024,
       io_uring_flags = 0 \<rparr>"

definition LOCAL_QUEUE_CAPACITY :: size_t where "LOCAL_QUEUE_CAPACITY = 256"
definition FIXED_FILES_NUM :: size_t where "FIXED_FILES_NUM = 10"

section \<open>System calls as the environment\<close>

text \<open>
  A synchronous system call answers with its return value and the \<^verbatim>\<open>errno\<close> it
  leaves behind. The kernel is not part of the program: each call's answer is an input of
  the model.
\<close>

record sys_reply =
  sys_ret :: int32
  sys_errno :: int32

section \<open>I/O awaiters\<close>

text \<open>
  Modelled from the spec: \<^verbatim>\<open>io::detail::IORegistrator\<close>
  (\<^verbatim>\<open>zedio/io/base/registrator.hpp\<close>) is not among the sources. By the spec's
  operation descriptor it captures the preparation function's arguments
  (\<^verbatim>\<open>args_\<close>), holds the raw kernel result (\<^verbatim>\<open>cb_.result_\<close>), and its
  \<^verbatim>\<open>await_suspend\<close> submits the operation and returns "suspended"; the poller
  writes the raw result into the descriptor before the task resumes. The initial value
  of \<^verbatim>\<open>cb_.result_\<close> is set there too, so the constructors below take it as the
  parameter \<open>r0\<close>.
\<close>

subsection \<open>Fsetxattr (zedio/io/awaiter/fsetxattr.hpp)\<close>

text \<open>
  \<^verbatim>\<open>await_resume\<close> reads \<^verbatim>\<open>cb_.result_\<close>. Its return type is
  \<^verbatim>\<open>Result<std::size_t>\<close> and the success branch is \<^verbatim>\<open>return {}\<close>: a
  value-initialised \<^verbatim>\<open>std::size_t\<close>, which is 0 whatever the kernel returned.
\<close>

definition Fsetxattr_await_resume :: "int32 \<Rightarrow> error + size_t" where
  "Fsetxattr_await_resume r =
     (if 0 <=s r then Inr 0 else Inl (make_sys_error (- r)))"

subsection \<open>SocketIO and its Accept awaiter (zedio/net/io.hpp)\<close>

text \<open>\<^verbatim>\<open>SocketIO\<close> holds the file descriptor of its base \<^verbatim>\<open>io::IO\<close>.\<close>

record SocketIO =
  fd :: int32

text \<open>
  \<^verbatim>\<open>Stream\<close> is a template parameter constructed from a \<^verbatim>\<open>SocketIO\<close>; the
  model keeps the \<^verbatim>\<open>SocketIO\<close> it wraps.
\<close>

datatype Stream = Stream (stream_io: SocketIO)

text \<open>
  The pointer arguments an awaiter captures point into the awaiter itself
  (\<^verbatim>\<open>&addr_\<close>, \<^verbatim>\<open>&length_\<close>) or are null.
\<close>

datatype member_ptr = Nullptr | Ptr_addr | Ptr_length

text \<open>
  The local class \<^verbatim>\<open>Accept\<close>: the captured arguments of
  \<^verbatim>\<open>io_uring_prep_accept\<close> (fd, address pointer, length pointer, flags), the raw
  result, and the members \<^verbatim>\<open>addr_\<close> and \<^verbatim>\<open>length_\<close>. \<open>'addr\<close> is the
  template parameter \<^verbatim>\<open>Addr\<close>.
\<close>

record 'addr Accept =
  accept_arg_fd :: int32
  accept_arg_addr :: member_ptr
  accept_arg_addrlen :: member_ptr
  accept_arg_flags :: int32
  accept_result :: int32
  accept_addr :: 'addr
  accept_length :: socklen_t

text \<open>
  \<^verbatim>\<open>SocketIO::accept\<close> returns \<^verbatim>\<open>Accept{fd_}\<close>. \<open>addr0\<close> is the
  value-initialised \<^verbatim>\<open>Addr{}\<close> and \<open>sizeof_Addr\<close> is \<^verbatim>\<open>sizeof(Addr)\<close>.
\<close>

definition SocketIO_accept :: "'addr \<Rightarrow> socklen_t \<Rightarrow> int32 \<Rightarrow> SocketIO \<Rightarrow> 'addr Accept" where
  "SocketIO_accept addr0 sizeof_Addr r0 io =
     \<lparr> accept_arg_fd = fd io,
       accept_arg_addr = Ptr_addr,
       accept_arg_addrlen = Ptr_length,
       accept_arg_flags = SOCK_NONBLOCK,
       accept_result = r0,
       accept_addr = addr0,
       accept_length = sizeof_Addr \<rparr>"

definition Accept_await_resume :: "'addr Accept \<Rightarrow> error + (Stream \<times> 'addr)" where
  "Accept_await_resume a =
     (if 0 <=s accept_result a
      then Inr (Stream \<lparr> fd = accept_result a \<rparr>, accept_addr a)
      else Inl (make_sys_error (- accept_result a)))"

text \<open>
  The kernel's side of an accept: with a nonnegative result \<open>r\<close> (the new descriptor) it
  has written the peer address and its length through the two pointers the operation was
  prepared with; with a negative result it has written nothing. The poller then stores
  \<open>r\<close> in \<^verbatim>\<open>cb_.result_\<close>.
\<close>

definition accept_complete :: "int32 \<Rightarrow> 'addr \<Rightarrow> socklen_t \<Rightarrow> 'addr Accept \<Rightarrow> 'addr Accept" where
  "accept_complete r peer peer_len a =
     (let a1 = (if 0 <=s r \<and> accept_arg_addr a = Ptr_addr then a\<lparr> accept_addr := peer \<rparr> else a);
          a2 = (if 0 <=s r \<and> accept_arg_addrlen a = Ptr_length
                then a1\<lparr> accept_length := peer_len \<rparr> else a1)
      in a2\<lparr> accept_result := r \<rparr>)"

subsection \<open>SocketIO::build\_socket and the Connect awaiter of build\_stream\<close>

text \<open>
  \<^verbatim>\<open>build_socket\<close>: the answer of \<^verbatim>\<open>::socket\<close> decides; the domain, type and
  protocol only reach the kernel.
\<close>

definition SocketIO_build_socket :: "sys_reply \<Rightarrow> error + SocketIO" where
  "SocketIO_build_socket k =
     (if sys_ret k \<noteq> - 1 then Inr \<lparr> fd = sys_ret k \<rparr>
      else Inl (make_sys_error (sys_errno k)))"

text \<open>
  The local class \<^verbatim>\<open>Connect\<close>: the captured arguments of
  \<^verbatim>\<open>io_uring_prep_connect\<close> (fd, address pointer, length), the raw result, and the
  members \<^verbatim>\<open>io_\<close> and \<^verbatim>\<open>addr_\<close>.
\<close>

record 'addr Connect =
  connect_arg_fd :: int32
  connect_arg_addr :: member_ptr
  connect_arg_addrlen :: socklen_t
  connect_result :: int32
  connect_io :: SocketIO
  connect_addr :: 'addr

text \<open>\<^verbatim>\<open>build_stream\<close> returns \<^verbatim>\<open>Connect(addr)\<close>.\<close>

definition SocketIO_build_stream :: "socklen_t \<Rightarrow> int32 \<Rightarrow> 'addr \<Rightarrow> 'addr Connect" where
  "SocketIO_build_stream sizeof_Addr r0 addr =
     \<lparr> connect_arg_fd = - 1,
       connect_arg_addr = Nullptr,
       connect_arg_addrlen = sizeof_Addr,
       connect_result = r0,
       connect_io = \<lparr> fd = - 1 \<rparr>,
       connect_addr = addr \<rparr>"

text \<open>
  \<^verbatim>\<open>Super::await_suspend\<close> (modelled from the spec, see above): submits and
  reports "suspended".
\<close>

definition IORegistrator_await_suspend :: "'addr Connect \<Rightarrow> 'addr Connect \<times> bool" where
  "IORegistrator_await_suspend c = (c, True)"

text \<open>
  \<^verbatim>\<open>Connect::await_suspend\<close>, with the answer \<open>k\<close> of \<^verbatim>\<open>::socket\<close>. On a
  failed \<^verbatim>\<open>build_socket\<close> it stores \<^verbatim>\<open>ret.error().value()\<close> in
  \<^verbatim>\<open>cb_.result_\<close> and returns false (the coroutine is not suspended).
\<close>

definition Connect_await_suspend :: "sys_reply \<Rightarrow> 'addr Connect \<Rightarrow> 'addr Connect \<times> bool" where
  "Connect_await_suspend k c =
     (case SocketIO_build_socket k of
        Inl e \<Rightarrow> (c\<lparr> connect_result := error_value e \<rparr>, False)
      | Inr io \<Rightarrow>
          IORegistrator_await_suspend
            (c\<lparr> connect_io := io, connect_arg_fd := fd io, connect_arg_addr := Ptr_addr \<rparr>))"

definition Connect_await_resume :: "'addr Connect \<Rightarrow> error + Stream" where
  "Connect_await_resume c =
     (if 0 <=s connect_result c then Inr (Stream (connect_io c))
      else Inl (make_sys_error (- connect_result c)))"

text \<open>
  \<^verbatim>\<open>co_await\<close> on the awaiter: \<^verbatim>\<open>await_suspend\<close>, then, only if the
  coroutine was suspended, the kernel's completion with raw result \<open>kr\<close>, then
  \<^verbatim>\<open>await_resume\<close>.
\<close>

definition Connect_co_await :: "sys_reply \<Rightarrow> int32 \<Rightarrow> 'addr Connect \<Rightarrow> error + Stream" where
  "Connect_co_await k kr c =
     (case Connect_await_suspend k c of
        (c1, suspended) \<Rightarrow>
          Connect_await_resume (if suspended then c1\<lparr> connect_result := kr \<rparr> else c1))"

subsection \<open>SocketIO::local\_addr and the option getters\<close>

text \<open>
  A local variable is either initialised or holds an indeterminate value
  (\<^verbatim>\<open>socklen_t len;\<close> with no initialiser).
\<close>

datatype 'a cell = Indeterminate | Val 'a

text \<open>
  The kernel's answer to \<^verbatim>\<open>getsockname\<close>: return value, \<^verbatim>\<open>errno\<close>, and the
  address and length it writes on success. The answer may depend on the length passed in.
\<close>

record 'addr name_reply =
  name_ret :: int32
  name_errno :: int32
  name_addr :: 'addr
  name_len :: socklen_t

text \<open>
  The call itself: a failing \<^verbatim>\<open>getsockname\<close> leaves \<^verbatim>\<open>*addr\<close> and
  \<^verbatim>\<open>*addrlen\<close> as they were; otherwise both are overwritten. The result is the
  return value, \<^verbatim>\<open>errno\<close>, and the two output cells after the call.
\<close>

definition getsockname ::
  "(socklen_t cell \<Rightarrow> 'addr name_reply) \<Rightarrow> 'addr \<Rightarrow> socklen_t cell
     \<Rightarrow> int32 \<times> int32 \<times> 'addr \<times> socklen_t cell" where
  "getsockname k addr len =
     (let r = k len in
      if name_ret r = - 1 then (- 1, name_errno r, addr, len)
      else (name_ret r, name_errno r, name_addr r, Val (name_len r)))"

text \<open>
  What a run of \<^verbatim>\<open>local_addr\<close> does: the length cell \<^verbatim>\<open>getsockname\<close> was
  given, the length cell after the call, and the value returned.
\<close>

record 'r addr_run =
  passed_len :: "socklen_t cell"
  final_len :: "socklen_t cell"
  returned :: "error + 'r"

text \<open>
  \<^verbatim>\<open>SocketIO::local_addr\<close>: \<^verbatim>\<open>Addr addr{}; socklen_t len{sizeof(addr)};\<close>
  and the address itself is returned.
\<close>

definition SocketIO_local_addr ::
  "'addr \<Rightarrow> socklen_t \<Rightarrow> (socklen_t cell \<Rightarrow> 'addr name_reply) \<Rightarrow> 'addr addr_run" where
  "SocketIO_local_addr addr0 sizeof_addr k =
     (let len = Val sizeof_addr in
      case getsockname k addr0 len of
        (ret, err, addr, len') \<Rightarrow>
          \<lparr> passed_len = len, final_len = len',
            returned = (if ret = - 1 then Inl (make_sys_error err) else Inr addr) \<rparr>)"

text \<open>
  \<^verbatim>\<open>SocketIO::get_sock_opt\<close>: the kernel's answer is \<open>k\<close>, and \<open>v\<close> the value it
  writes to \<^verbatim>\<open>*optval\<close> unless the call fails. The result is the
  \<^verbatim>\<open>Result<void>\<close> and \<^verbatim>\<open>optval\<close> after the call.
\<close>

definition SocketIO_get_sock_opt :: "sys_reply \<Rightarrow> int32 \<Rightarrow> int32 \<Rightarrow> (error + unit) \<times> int32" where
  "SocketIO_get_sock_opt k v optval =
     (if sys_ret k = - 1 then (Inl (make_sys_error (sys_errno k)), optval)
      else (Inr (), v))"

text \<open>
  The option names (Linux). The kernel's answer \<open>k\<close> and the value \<open>v\<close> it reports
  are functions of level and option name.
\<close>

definition SOL_SOCKET :: int32 where "SOL_SOCKET = 1"
definition SO_REUSEADDR :: int32 where "SO_REUSEADDR = 2"
definition SO_BROADCAST :: int32 where "SO_BROADCAST = 6"
definition SO_KEEPALIVE :: int32 where "SO_KEEPALIVE = 9"
definition SO_REUSEPORT :: int32 where "SO_REUSEPORT = 15"

type_synonym sockopt_kernel = "int32 \<Rightarrow> int32 \<Rightarrow> sys_reply \<times> int32"

definition SocketIO_reuseaddr :: "sockopt_kernel \<Rightarrow> error + bool" where
  "SocketIO_reuseaddr k =
     (case k SOL_SOCKET SO_REUSEADDR of
        (rep, v) \<Rightarrow>
          (case SocketIO_get_sock_opt rep v 0 of
             (Inr _, optval) \<Rightarrow> Inr (optval \<noteq> 0)
           | (Inl e, _) \<Rightarrow> Inl e))"

definition SocketIO_reuseport :: "sockopt_kernel \<Rightarrow> error + bool" where
  "SocketIO_reuseport k =
     (case k SOL_SOCKET SO_REUSEPORT of
        (rep, v) \<Rightarrow>
          (case SocketIO_get_sock_opt rep v 0 of
             (Inr _, optval) \<Rightarrow> Inr (optval \<noteq> 0)
           | (Inl e, _) \<Rightarrow> Inl e))"

definition SocketIO_broadcast :: "sockopt_kernel \<Rightarrow> error + bool" where
  "SocketIO_broadcast k =
     (case k SOL_SOCKET SO_BROADCAST of
        (rep, v) \<Rightarrow>
          (case SocketIO_get_sock_opt rep v 0 of
             (Inr _, optval) \<Rightarrow> Inr (optval \<noteq> 0)
           | (Inl e, _) \<Rightarrow> Inl e))"

definition SocketIO_keepalive :: "sockopt_kernel \<Rightarrow> error + bool" where
  "SocketIO_keepalive k =
     (case k SOL_SOCKET SO_KEEPALIVE of
        (rep, v) \<Rightarrow>
          (case SocketIO_get_sock_opt rep v 0 of
             (Inr _, optval) \<Rightarrow> Inr (optval \<noteq> 0)
           | (Inl e, _) \<Rightarrow> Inl e))"

section \<open>Socket (zedio/net/socket.hpp)\<close>

subsection \<open>shutdown and listen\<close>

text \<open>
  \<^verbatim>\<open>Socket::shutdown\<close> has one \<^verbatim>\<open>return\<close>, inside the \<^verbatim>\<open>if\<close>. When
  \<^verbatim>\<open>::shutdown\<close> does not answer -1, control reaches the closing brace of a function
  declared to return \<^verbatim>\<open>Result<void>\<close>: no value is returned (\<open>None\<close>).
\<close>

definition Socket_shutdown :: "sys_reply \<Rightarrow> (error + unit) option" where
  "Socket_shutdown k =
     (if sys_ret k = - 1 then Some (Inl (make_sys_error (sys_errno k))) else None)"

text \<open>\<^verbatim>\<open>Socket::listen\<close>, its sibling, ends with \<^verbatim>\<open>return {}\<close>.\<close>

definition Socket_listen :: "sys_reply \<Rightarrow> (error + unit) option" where
  "Socket_listen k =
     (if sys_ret k = - 1 then Some (Inl (make_sys_error (sys_errno k))) else Some (Inr ()))"

subsection \<open>local\_addr\<close>

text \<open>
  \<^verbatim>\<open>Socket::local_addr\<close>: \<^verbatim>\<open>struct sockaddr_storage addr{}; socklen_t len;\<close>
  and \<^verbatim>\<open>Addr{&addr, len}\<close> is built from the storage and the length after the call.
\<close>

definition Socket_local_addr ::
  "'addr \<Rightarrow> (socklen_t cell \<Rightarrow> 'addr name_reply) \<Rightarrow> ('addr \<times> socklen_t cell) addr_run" where
  "Socket_local_addr storage0 k =
     (let len = Indeterminate in
      case getsockname k storage0 len of
        (ret, err, addr, len') \<Rightarrow>
          \<lparr> passed_len = len, final_len = len',
            returned = (if ret = - 1 then Inl (make_sys_error err) else Inr (addr, len')) \<rparr>)"

subsection \<open>Option getters\<close>

definition Socket_get_sock_opt :: "sys_reply \<Rightarrow> int32 \<Rightarrow> int32 \<Rightarrow> (error + unit) \<times> int32" where
  "Socket_get_sock_opt k v optval =
     (if sys_ret k = - 1 then (Inl (make_sys_error (sys_errno k)), optval)
      else (Inr (), v))"

definition Socket_reuseaddr :: "sockopt_kernel \<Rightarrow> error + bool" where
  "Socket_reuseaddr k =
     (case k SOL_SOCKET SO_REUSEADDR of
        (rep, v) \<Rightarrow>
          (case Socket_get_sock_opt rep v 0 of
             (Inr _, optval) \<Rightarrow> Inr (optval = 1)
           | (Inl e, _) \<Rightarrow> Inl e))"

definition Socket_reuseport :: "sockopt_kernel \<Rightarrow> error + bool" where
  "Socket_reuseport k =
     (case k SOL_SOCKET SO_REUSEPORT of
        (rep, v) \<Rightarrow>
          (case Socket_get_sock_opt rep v 0 of
             (Inr _, optval) \<Rightarrow> Inr (optval = 1)
           | (Inl e, _) \<Rightarrow> Inl e))"

definition Socket_broadcast :: "sockopt_kernel \<Rightarrow> error + bool" where
  "Socket_broadcast k =
     (case k SOL_SOCKET SO_BROADCAST of
        (rep, v) \<Rightarrow>
          (case Socket_get_sock_opt rep v 0 of
             (Inr _, optval) \<Rightarrow> Inr (optval = 1)
           | (Inl e, _) \<Rightarrow> Inl e))"

definition Socket_keepalive :: "sockopt_kernel \<Rightarrow> error + bool" where
  "Socket_keepalive k =
     (case k SOL_SOCKET SO_KEEPALIVE of
        (rep, v) \<Rightarrow>
          (case Socket_get_sock_opt rep v 0 of
             (Inr _, optval) \<Rightarrow> Inr (optval = 1)
           | (Inl e, _) \<Rightarrow> Inl e))"

subsection \<open>sync\_close\<close>

text \<open>
  What a run of \<^verbatim>\<open>sync_close\<close> does: how many times it called \<^verbatim>\<open>::close\<close>,
  and the \<^verbatim>\<open>ret\<close> and \<^verbatim>\<open>errno\<close> it passed to \<^verbatim>\<open>LOG_ERROR\<close>, if it
  got there.
\<close>

record close_run =
  close_calls :: nat
  logged_error :: "(int32 \<times> int32) option"

text \<open>
  The \<^verbatim>\<open>do ... while (ret == EINTR && cnt--)\<close> loop; \<open>k i\<close> is the answer of the
  \<open>i\<close>-th call of \<^verbatim>\<open>::close\<close> and \<open>cnt\<close> the counter before the test.
  \<^verbatim>\<open>cnt--\<close> is only evaluated when \<^verbatim>\<open>ret == EINTR\<close>, and is true when the
  counter was not 0.
\<close>

function sync_close_loop :: "(nat \<Rightarrow> sys_reply) \<Rightarrow> nat \<Rightarrow> int32 \<Rightarrow> close_run" where
  "sync_close_loop k i cnt =
     (let ret = sys_ret (k i) in
      if ret = 0 then \<lparr> close_calls = Suc i, logged_error = None \<rparr>
      else if ret = EINTR \<and> cnt \<noteq> 0 then sync_close_loop k (Suc i) (cnt - 1)
      else \<lparr> close_calls = Suc i, logged_error = Some (ret, sys_errno (k i)) \<rparr>)"
  by pat_completeness auto
termination
  by (relation "measure (\<lambda>(k, i, cnt). unat cnt)")
     (auto simp: unat_minus_one unat_gt_0)

declare sync_close_loop.simps [simp del]

definition sync_close :: "(nat \<Rightarrow> sys_reply) \<Rightarrow> close_run" where
  "sync_close k = sync_close_loop k 0 3"

subsection \<open>Construction, move, close and destruction\<close>

text \<open>
  A \<^verbatim>\<open>Socket\<close> has the one member \<^verbatim>\<open>fd_\<close>. The objects of a program are the
  slots of a table: \<open>Some f\<close> is a live \<^verbatim>\<open>Socket\<close> with \<^verbatim>\<open>fd_ == f\<close>,
  \<open>None\<close> a slot with no object (not yet constructed, or destroyed). \<open>closed\<close> lists,
  in order, the descriptors handed to \<^verbatim>\<open>sync_close\<close> or \<^verbatim>\<open>async::close\<close>.
\<close>

record sockets =
  objs :: "int32 option list"
  closed :: "int32 list"

datatype socket_op =
    Destroy nat
  | Move_construct nat nat
  | Move_assign nat nat
  | Close nat

definition live :: "sockets \<Rightarrow> nat \<Rightarrow> int32 option" where
  "live s a = (if a < length (objs s) then objs s ! a else None)"

text \<open>
  The guard of the destructor and of move assignment:
  \<^verbatim>\<open>if (fd_ >= 0) sync_close(fd_)\<close>.
\<close>

definition close_if_open :: "int32 \<Rightarrow> int32 list" where
  "close_if_open f = (if 0 <=s f then [f] else [])"

text \<open>
  One operation on the table; \<open>None\<close> when it names an object that is not alive (or, for
  the move constructor, a target that already is). In \<open>Move_construct b a\<close> and
  \<open>Move_assign b a\<close> the object \<open>b\<close> is \<^verbatim>\<open>*this\<close> and \<open>a\<close> is
  \<^verbatim>\<open>other\<close>; they may be the same object in a move assignment, and then the second
  store \<^verbatim>\<open>other.fd_ = -1\<close> lands on \<^verbatim>\<open>*this\<close>.
\<close>

fun socket_step :: "socket_op \<Rightarrow> sockets \<Rightarrow> sockets option" where
  "socket_step (Destroy a) s =
     (case live s a of
        None \<Rightarrow> None
      | Some f \<Rightarrow>
          Some (s\<lparr> objs := (objs s)[a := None], closed := closed s @ close_if_open f \<rparr>))"
| "socket_step (Move_construct b a) s =
     (case live s a of
        None \<Rightarrow> None
      | Some f \<Rightarrow>
          if b < length (objs s) \<and> objs s ! b = None
          then Some (s\<lparr> objs := (objs s)[b := Some f, a := Some (- 1)] \<rparr>)
          else None)"
| "socket_step (Move_assign b a) s =
     (case (live s b, live s a) of
        (Some g, Some f) \<Rightarrow>
          Some (s\<lparr> objs := (objs s)[b := Some f, a := Some (- 1)],
                  closed := closed s @ close_if_open g \<rparr>)
      | _ \<Rightarrow> None)"
| "socket_step (Close a) s =
     (case live s a of
        None \<Rightarrow> None
      | Some f \<Rightarrow>
          Some (s\<lparr> objs := (objs s)[a := Some (- 1)], closed := closed s @ [f] \<rparr>))"

fun socket_run :: "socket_op list \<Rightarrow> sockets \<Rightarrow> sockets option" where
  "socket_run [] s = Some s"
| "socket_run (x # xs) s =
     (case socket_step x s of None \<Rightarrow> None | Some s' \<Rightarrow> socket_run xs s')"

text \<open>The open descriptors (\<^verbatim>\<open>fd_ >= 0\<close>) the live objects hold, slot by slot.\<close>

fun owned :: "int32 option list \<Rightarrow> int32 list" where
  "owned [] = []"
| "owned (None # xs) = owned xs"
| "owned (Some f # xs) = close_if_open f @ owned xs"

text \<open>The closes of real descriptors: \<^verbatim>\<open>close()\<close> on a moved-from object hands -1 on.\<close>

definition closed_fds :: "sockets \<Rightarrow> int32 list" where
  "closed_fds s = filter (\<lambda>f. 0 <=s f) (closed s)"

text \<open>
  No open descriptor is held by two live objects, none that is held has been closed, and
  none has been closed twice.
\<close>

definition sole_owners :: "sockets \<Rightarrow> bool" where
  "sole_owners s = distinct (owned (objs s) @ closed_fds s)"

text \<open>
  The open descriptors of a state, held or already closed, each as often as it occurs.
\<close>

definition descriptors :: "sockets \<Rightarrow> int32 multiset" where
  "descriptors s = mset (owned (objs s)) + mset (closed_fds s)"

subsection \<open>write\_all\<close>

text \<open>
  The underlying \<^verbatim>\<open>write\<close> is the environment: \<open>w i off len\<close> is the result of
  the \<open>i\<close>-th awaited write, asked to write \<open>len\<close> bytes from offset \<open>off\<close> of the
  buffer. The loop keeps, besides \<^verbatim>\<open>has_written_bytes\<close> and
  \<^verbatim>\<open>remaining_bytes\<close>, the results it has received so far (\<open>tr\<close>), and returns
  them with the coroutine's result and the final \<^verbatim>\<open>has_written_bytes\<close>. The
  loop may run forever: not returning is \<open>None\<close>.
\<close>

type_synonym writer = "nat \<Rightarrow> size_t \<Rightarrow> size_t \<Rightarrow> error + size_t"

partial_function (option) write_all_loop ::
  "writer \<Rightarrow> (error + size_t) list \<Rightarrow> size_t \<Rightarrow> size_t
     \<Rightarrow> ((error + unit) \<times> size_t \<times> (error + size_t) list) option" where
  "write_all_loop w tr has_written_bytes remaining_bytes =
     (if 0 < remaining_bytes then
        (case w (length tr) has_written_bytes remaining_bytes of
           Inl e \<Rightarrow> Some (Inl e, has_written_bytes, tr @ [Inl e])
         | Inr v \<Rightarrow>
             write_all_loop w (tr @ [Inr v]) (has_written_bytes + v) (remaining_bytes - v))
      else Some (Inr (), has_written_bytes, tr))"

text \<open>\<^verbatim>\<open>Socket::write_all\<close> on a span of \<open>size_bytes\<close> bytes.\<close>

definition write_all ::
  "writer \<Rightarrow> size_t \<Rightarrow> ((error + unit) \<times> size_t \<times> (error + size_t) list) option" where
  "write_all w size_bytes = write_all_loop w [] 0 size_bytes"

text \<open>The bytes a list of write results reports as written, summed as \<^verbatim>\<open>std::size_t\<close>.\<close>

fun bytes :: "(error + size_t) list \<Rightarrow> size_t" where
  "bytes [] = 0"
| "bytes (Inl e # tr) = bytes tr"
| "bytes (Inr v # tr) = v + bytes tr"

text \<open>
  \<open>tr\<close> lists what \<open>w\<close> answered to the calls \<^verbatim>\<open>write_all\<close> makes on a span
  of \<open>n\<close> bytes: the \<open>i\<close>-th call starts where the earlier ones stopped and asks for
  all that remains.
\<close>

definition answers :: "writer \<Rightarrow> size_t \<Rightarrow> (error + size_t) list \<Rightarrow> bool" where
  "answers w n tr =
     (\<forall>i<length tr. tr ! i = w i (bytes (take i tr)) (n - bytes (take i tr)))"

text \<open>A write that never makes progress: every call reports 0 bytes written.\<close>

definition zero_writer :: writer where
  "zero_writer i off len = Inr 0"

text \<open>
  A write that behaves as \<^verbatim>\<open>write(2)\<close> promises: asked for \<open>len > 0\<close> bytes, a
  successful call reports between 1 and \<open>len\<close> bytes.
\<close>

definition makes_progress :: "writer \<Rightarrow> bool" where
  "makes_progress w =
     (\<forall>i off len v. 0 < len \<and> w i off len = Inr v \<longrightarrow> 0 < v \<and> v \<le> len)"

section \<open>Concrete environments\<close>

text \<open>
  \<^verbatim>\<open>::close\<close> is interrupted by a signal once (it answers -1 and sets
  \<^verbatim>\<open>errno\<close> to \<^verbatim>\<open>EINTR\<close>) and would succeed on every later call.
\<close>

definition close_interrupted_once :: "nat \<Rightarrow> sys_reply" where
  "close_interrupted_once i =
     (if i = 0 then \<lparr> sys_ret = - 1, sys_errno = EINTR \<rparr> else \<lparr> sys_ret = 0, sys_errno = 0 \<rparr>)"

text \<open>A \<^verbatim>\<open>::close\<close> whose return value itself is always the number \<^verbatim>\<open>EINTR\<close>.\<close>

definition close_returns_EINTR :: "nat \<Rightarrow> sys_reply" where
  "close_returns_EINTR i = \<lparr> sys_ret = EINTR, sys_errno = EINTR \<rparr>"

text \<open>A kernel that reports the value 2, respectively 1, for every socket option.\<close>

definition reports_two :: sockopt_kernel where
  "reports_two level optname = (\<lparr> sys_ret = 0, sys_errno = 0 \<rparr>, 2)"

definition reports_one :: sockopt_kernel where
  "reports_one level optname = (\<lparr> sys_ret = 0, sys_errno = 0 \<rparr>, 1)"

text \<open>
  A \<^verbatim>\<open>getsockname\<close> that fails with \<^verbatim>\<open>EBADF\<close> (9) whatever length it is
  given; addresses are raw bytes.
\<close>

definition bad_descriptor :: "socklen_t cell \<Rightarrow> (8 word list) name_reply" where
  "bad_descriptor len = \<lparr> name_ret = - 1, name_errno = 9, name_addr = [], name_len = 0 \<rparr>"

text \<open>
  Two sockets on descriptors 3 and 4 and a free slot; the first is moved into the free
  slot, which is closed and destroyed; the second is move-assigned to itself; then the
  moved-from first is closed, and both are destroyed.
\<close>

definition two_sockets :: sockets where
  "two_sockets = \<lparr> objs = [Some 3, Some 4, None], closed = [] \<rparr>"

definition moves_and_closes :: "socket_op list" where
  "moves_and_closes =
     [Move_construct 2 0, Close 2, Destroy 2, Move_assign 1 1, Close 0, Destroy 0, Destroy 1]"

text \<open>
  A write that reports 0 bytes on its first two calls and then writes all it is asked for.
\<close>

definition stalls_twice :: writer where
  "stalls_twice i off len = (if i < 2 then Inr 0 else Inr len)"

text \<open>
  A write that takes at most 2 bytes per call, twice, and from then on fails with
  \<^verbatim>\<open>EPIPE\<close> (32).
\<close>

definition chunk2_then_EPIPE :: writer where
  "chunk2_then_EPIPE i off len = (if i < 2 then Inr (min len 2) else Inl (make_sys_error 32))"

section \<open>Config defaults\<close>

text \<open>
  Claim C6. A default-constructed \<^verbatim>\<open>Config\<close> has \<^verbatim>\<open>num_worker_\<close> equal to
  the hardware concurrency, both check intervals 61, 1024 ring entries and no
  \<^verbatim>\<open>io_uring\<close> flags; \<^verbatim>\<open>LOCAL_QUEUE_CAPACITY\<close> is 256 and
  \<^verbatim>\<open>FIXED_FILES_NUM\<close> is 10.
\<close>

theorem Config_default_values:
  "num_worker (Config_default hc) = ucast hc \<and>
   unat (num_worker (Config_default hc)) = unat hc \<and>
   check_io_interval (Config_default hc) = 61 \<and>
   check_global_interval (Config_default hc) = 61 \<and>
   ring_entries (Config_default hc) = 1024 \<and>
   io_uring_flags (Config_default hc) = 0 \<and>
   LOCAL_QUEUE_CAPACITY = 256 \<and> FIXED_FILES_NUM = 10"
proof -
  have "unat hc < 2 ^ 32"
    using unsigned_less [of hc, where ?'a = nat] by simp
  then have "unat (ucast hc :: size_t) = unat hc"
    by (simp add: unsigned_ucast_eq take_bit_nat_eq_self_iff)
  then show ?thesis
    by (simp add: Config_default_def LOCAL_QUEUE_CAPACITY_def FIXED_FILES_NUM_def)
qed

section \<open>Result interpretation of the awaiters\<close>

text \<open>
  Negating a 32-bit value gives the negated number, except at the least value, where the
  negation wraps onto itself.
\<close>

lemma sint_neg_int32:
  fixes r :: int32
  assumes "sint r \<noteq> - (2 ^ 31)"
  shows "sint (- r) = - sint r"
proof -
  have lo: "- (2 ^ 31) \<le> sint r" and hi: "sint r < 2 ^ 31"
    using sint_ge [of r] sint_lt [of r] by simp_all
  have "sint (- r) = signed_take_bit 31 (- sint r)"
    by (simp add: sint_word_minus)
  also have "\<dots> = - sint r"
    using lo hi assms by (intro signed_take_bit_int_eq_self) simp_all
  finally show ?thesis .
qed

text \<open>
  Claim C1. \<^verbatim>\<open>await_resume\<close> of each awaiter in the sources (Fsetxattr, Accept,
  Connect) looks at the stored raw result \<open>r\<close>. If \<open>r \<ge> 0\<close> it yields a success: the
  value-initialised payload for Fsetxattr (nothing of \<open>r\<close> is in it), the pair of a
  Stream on descriptor \<open>r\<close> and the stored address for Accept, the Stream on the
  awaiter's socket for Connect. If \<open>r < 0\<close> it yields the failure made from \<open>-r\<close>, whose
  error code is \<open>-r\<close> as a number (for every \<open>r\<close> but the least 32-bit value, whose
  negation wraps).
\<close>

theorem await_resume_interprets_result:
  fixes r :: int32
  shows
  "(0 <=s r \<longrightarrow>
      Fsetxattr_await_resume r = Inr 0 \<and>
      Accept_await_resume (a\<lparr> accept_result := r \<rparr>) = Inr (Stream \<lparr> fd = r \<rparr>, accept_addr a) \<and>
      Connect_await_resume (c\<lparr> connect_result := r \<rparr>) = Inr (Stream (connect_io c))) \<and>
   (r <s 0 \<longrightarrow>
      Fsetxattr_await_resume r = Inl (make_sys_error (- r)) \<and>
      Accept_await_resume (a\<lparr> accept_result := r \<rparr>) = Inl (make_sys_error (- r)) \<and>
      Connect_await_resume (c\<lparr> connect_result := r \<rparr>) = Inl (make_sys_error (- r)) \<and>
      error_value (make_sys_error (- r)) = - r \<and>
      (sint r \<noteq> - (2 ^ 31) \<longrightarrow> sint (error_value (make_sys_error (- r))) = - sint r))"
  by (auto simp: Fsetxattr_await_resume_def Accept_await_resume_def Connect_await_resume_def
      make_sys_error_def sint_neg_int32 word_sle_eq word_sless_alt)

theorem await_resume_interprets_result_witness:
  "Fsetxattr_await_resume 3 = Inr 0 \<and>
   Accept_await_resume (SocketIO_accept [0 :: 8 word] 16 0 \<lparr> fd = 5 \<rparr> \<lparr> accept_result := 3 \<rparr>)
     = Inr (Stream \<lparr> fd = 3 \<rparr>, [0]) \<and>
   Connect_await_resume (SocketIO_build_stream 16 0 [0 :: 8 word] \<lparr> connect_result := 3 \<rparr>)
     = Inr (Stream \<lparr> fd = - 1 \<rparr>) \<and>
   Fsetxattr_await_resume (- 13) = Inl (SysError 13) \<and>
   Accept_await_resume (SocketIO_accept [0 :: 8 word] 16 0 \<lparr> fd = 5 \<rparr> \<lparr> accept_result := - 13 \<rparr>)
     = Inl (SysError 13) \<and>
   Connect_await_resume (SocketIO_build_stream 16 0 [0 :: 8 word] \<lparr> connect_result := - 13 \<rparr>)
     = Inl (SysError 13) \<and>
   sint (error_value (make_sys_error (- (- 13 :: int32)))) = 13"
  using await_resume_interprets_result
          [of 3 "SocketIO_accept [0 :: 8 word] 16 0 \<lparr> fd = 5 \<rparr>"
              "SocketIO_build_stream 16 0 [0 :: 8 word]"]
        await_resume_interprets_result
          [of "- 13" "SocketIO_accept [0 :: 8 word] 16 0 \<lparr> fd = 5 \<rparr>"
              "SocketIO_build_stream 16 0 [0 :: 8 word]"]
  by (simp add: word_sle_eq word_sless_alt make_sys_error_def SocketIO_accept_def
      SocketIO_build_stream_def)

section \<open>The Accept descriptor\<close>

text \<open>
  Claim C7. The Accept descriptor that \<^verbatim>\<open>SocketIO::accept\<close> produces holds the
  storage for the peer address: an address member, value-initialised, and a length member
  initialised to \<^verbatim>\<open>sizeof(Addr)\<close>. The arguments it captures for the kernel
  preparation are the socket's descriptor, pointers to these two members and
  \<^verbatim>\<open>SOCK_NONBLOCK\<close>. When the kernel completes the accept with a nonnegative result
  \<open>r\<close>, having written the peer address through those pointers, \<^verbatim>\<open>await_resume\<close>
  returns the Stream on descriptor \<open>r\<close> paired with that peer address; and in any state
  with a nonnegative result it returns the Stream on the result paired with the stored
  address.
\<close>

theorem Accept_owns_peer_address_storage:
  "accept_addr (SocketIO_accept addr0 sz r0 io) = addr0 \<and>
   accept_length (SocketIO_accept addr0 sz r0 io) = sz \<and>
   accept_arg_fd (SocketIO_accept addr0 sz r0 io) = fd io \<and>
   accept_arg_addr (SocketIO_accept addr0 sz r0 io) = Ptr_addr \<and>
   accept_arg_addrlen (SocketIO_accept addr0 sz r0 io) = Ptr_length \<and>
   accept_arg_flags (SocketIO_accept addr0 sz r0 io) = SOCK_NONBLOCK \<and>
   (0 <=s r \<longrightarrow>
      accept_addr (accept_complete r peer peer_len (SocketIO_accept addr0 sz r0 io)) = peer \<and>
      accept_length (accept_complete r peer peer_len (SocketIO_accept addr0 sz r0 io)) = peer_len \<and>
      Accept_await_resume (accept_complete r peer peer_len (SocketIO_accept addr0 sz r0 io))
        = Inr (Stream \<lparr> fd = r \<rparr>, peer)) \<and>
   (0 <=s accept_result a \<longrightarrow>
      Accept_await_resume a = Inr (Stream \<lparr> fd = accept_result a \<rparr>, accept_addr a))"
  by (simp add: SocketIO_accept_def accept_complete_def Accept_await_resume_def Let_def)

theorem Accept_owns_peer_address_storage_witness:
  "accept_length (SocketIO_accept [0, 0 :: 8 word] 2 0 \<lparr> fd = 5 \<rparr>) = 2 \<and>
   accept_arg_addr (SocketIO_accept [0, 0 :: 8 word] 2 0 \<lparr> fd = 5 \<rparr>) = Ptr_addr \<and>
   Accept_await_resume
     (accept_complete 7 [192, 168] 2 (SocketIO_accept [0, 0 :: 8 word] 2 0 \<lparr> fd = 5 \<rparr>))
     = Inr (Stream \<lparr> fd = 7 \<rparr>, [192, 168])"
  using Accept_owns_peer_address_storage
    [of "[0, 0 :: 8 word]" 2 0 "\<lparr> fd = 5 \<rparr>" 7 "[192, 168]" 2
        "accept_complete 7 [192, 168] 2 (SocketIO_accept [0, 0 :: 8 word] 2 0 \<lparr> fd = 5 \<rparr>)"]
  by (simp add: word_sle_eq)

section \<open>Connect when the socket cannot be built\<close>

text \<open>
  Claim C3 says that when building the socket fails inside \<^verbatim>\<open>await_suspend\<close>, the
  coroutine resumes at once and \<^verbatim>\<open>await_resume\<close> yields that error, never a Stream on
  an invalid socket. The code stores the error's own value, a positive \<^verbatim>\<open>errno\<close>, in
  \<^verbatim>\<open>cb_.result_\<close>, and \<^verbatim>\<open>await_resume\<close> reads a nonnegative result as
  success: with \<^verbatim>\<open>::socket\<close> failing on \<^verbatim>\<open>EMFILE\<close> the awaiter yields a
  Stream whose descriptor is -1.
\<close>

theorem Connect_socket_failure_yields_stream:
  "Connect_co_await \<lparr> sys_ret = - 1, sys_errno = EMFILE \<rparr> kr (SocketIO_build_stream sz r0 addr)
     = Inr (Stream \<lparr> fd = - 1 \<rparr>)"
  by (simp add: Connect_co_await_def Connect_await_suspend_def SocketIO_build_socket_def
      Connect_await_resume_def SocketIO_build_stream_def make_sys_error_def EMFILE_def
      word_sle_eq)

text \<open>The same for every nonnegative \<^verbatim>\<open>errno\<close>; and the path on which the socket is built.\<close>

lemma Connect_socket_failure_any_errno:
  "0 <=s e \<Longrightarrow>
   Connect_co_await \<lparr> sys_ret = - 1, sys_errno = e \<rparr> kr (SocketIO_build_stream sz r0 addr)
     = Inr (Stream \<lparr> fd = - 1 \<rparr>)"
  by (simp add: Connect_co_await_def Connect_await_suspend_def SocketIO_build_socket_def
      Connect_await_resume_def SocketIO_build_stream_def make_sys_error_def)

lemma Connect_socket_built:
  "s \<noteq> - 1 \<Longrightarrow>
   Connect_co_await \<lparr> sys_ret = s, sys_errno = e \<rparr> kr (SocketIO_build_stream sz r0 addr)
     = (if 0 <=s kr then Inr (Stream \<lparr> fd = s \<rparr>) else Inl (make_sys_error (- kr)))"
  by (simp add: Connect_co_await_def Connect_await_suspend_def SocketIO_build_socket_def
      Connect_await_resume_def SocketIO_build_stream_def IORegistrator_await_suspend_def)

section \<open>Socket::shutdown\<close>

text \<open>
  Claim C4 says \<^verbatim>\<open>Socket::shutdown\<close> returns unit when \<^verbatim>\<open>::shutdown\<close>
  succeeds. The function has no \<^verbatim>\<open>return\<close> on that path: with \<^verbatim>\<open>::shutdown\<close>
  answering 0 it returns nothing, where its sibling \<^verbatim>\<open>listen\<close> returns unit.
\<close>

theorem Socket_shutdown_success_returns_nothing:
  "Socket_shutdown \<lparr> sys_ret = 0, sys_errno = e \<rparr> = None \<and>
   Socket_listen \<lparr> sys_ret = 0, sys_errno = e \<rparr> = Some (Inr ())"
  by (simp add: Socket_shutdown_def Socket_listen_def)

lemma Socket_shutdown_failure:
  "Socket_shutdown \<lparr> sys_ret = - 1, sys_errno = e \<rparr> = Some (Inl (make_sys_error e))"
  by (simp add: Socket_shutdown_def)

section \<open>local\_addr\<close>

text \<open>
  Claim C5. \<^verbatim>\<open>Socket::local_addr\<close> hands \<^verbatim>\<open>getsockname\<close> a length that was
  never initialised, and when the call fails the length is still indeterminate afterwards
  (the function returns the error); \<^verbatim>\<open>SocketIO::local_addr\<close> hands it the length
  initialised to \<^verbatim>\<open>sizeof(addr)\<close>.
\<close>

theorem local_addr_length_passed:
  "passed_len (Socket_local_addr storage0 k) = Indeterminate \<and>
   passed_len (SocketIO_local_addr addr0 sz k) = Val sz \<and>
   (name_ret (k Indeterminate) = - 1 \<longrightarrow>
      final_len (Socket_local_addr storage0 k) = Indeterminate \<and>
      returned (Socket_local_addr storage0 k)
        = Inl (make_sys_error (name_errno (k Indeterminate)))) \<and>
   (name_ret (k (Val sz)) = - 1 \<longrightarrow>
      final_len (SocketIO_local_addr addr0 sz k) = Val sz \<and>
      returned (SocketIO_local_addr addr0 sz k)
        = Inl (make_sys_error (name_errno (k (Val sz)))))"
  by (simp add: Socket_local_addr_def SocketIO_local_addr_def getsockname_def Let_def)

theorem local_addr_length_passed_witness:
  "passed_len (Socket_local_addr [] bad_descriptor) = Indeterminate \<and>
   passed_len (SocketIO_local_addr [] 16 bad_descriptor) = Val 16 \<and>
   final_len (Socket_local_addr [] bad_descriptor) = Indeterminate \<and>
   returned (Socket_local_addr [] bad_descriptor) = Inl (SysError 9) \<and>
   final_len (SocketIO_local_addr [] 16 bad_descriptor) = Val 16 \<and>
   returned (SocketIO_local_addr [] 16 bad_descriptor) = Inl (SysError 9)"
  using local_addr_length_passed [of "[]" bad_descriptor "[]" 16]
  by (simp add: bad_descriptor_def make_sys_error_def)

section \<open>The boolean option getters\<close>

text \<open>
  Claim C9 says the getters of \<^verbatim>\<open>Socket\<close> (\<^verbatim>\<open>optval == 1\<close>) and of
  \<^verbatim>\<open>SocketIO\<close> (\<^verbatim>\<open>optval != 0\<close>) return the same boolean for every value
  the kernel reports. They do not when the kernel reports 2: \<^verbatim>\<open>Socket\<close> answers
  false and \<^verbatim>\<open>SocketIO\<close> answers true.
\<close>

theorem getters_disagree_on_two:
  "Socket_reuseaddr reports_two = Inr False \<and> SocketIO_reuseaddr reports_two = Inr True \<and>
   Socket_reuseport reports_two = Inr False \<and> SocketIO_reuseport reports_two = Inr True \<and>
   Socket_broadcast reports_two = Inr False \<and> SocketIO_broadcast reports_two = Inr True \<and>
   Socket_keepalive reports_two = Inr False \<and> SocketIO_keepalive reports_two = Inr True"
  by (simp add: reports_two_def Socket_reuseaddr_def SocketIO_reuseaddr_def
      Socket_reuseport_def SocketIO_reuseport_def Socket_broadcast_def SocketIO_broadcast_def
      Socket_keepalive_def SocketIO_keepalive_def Socket_get_sock_opt_def
      SocketIO_get_sock_opt_def)

lemma getter_bodies_agree:
  "((case Socket_get_sock_opt rep v 0 of
       (Inr _, optval) \<Rightarrow> Inr (optval = 1) | (Inl e, _) \<Rightarrow> Inl e)
    = (case SocketIO_get_sock_opt rep v 0 of
       (Inr _, optval) \<Rightarrow> Inr (optval \<noteq> 0) | (Inl e, _) \<Rightarrow> Inl e))
   = (sys_ret rep = - 1 \<or> v = 0 \<or> v = 1)"
  by (auto simp: Socket_get_sock_opt_def SocketIO_get_sock_opt_def)

text \<open>
  Claim C9, amended. For each of \<^verbatim>\<open>reuseaddr\<close>, \<^verbatim>\<open>reuseport\<close>,
  \<^verbatim>\<open>broadcast\<close> and \<^verbatim>\<open>keepalive\<close>, the getter of \<^verbatim>\<open>Socket\<close> and the
  getter of \<^verbatim>\<open>SocketIO\<close> return the same result exactly when
  \<^verbatim>\<open>getsockopt\<close> fails (both return its error) or the value the kernel reports is
  0 or 1.
\<close>

theorem getters_agree_iff_zero_or_one:
  "((Socket_reuseaddr k = SocketIO_reuseaddr k) =
     (sys_ret (fst (k SOL_SOCKET SO_REUSEADDR)) = - 1 \<or>
      snd (k SOL_SOCKET SO_REUSEADDR) = 0 \<or> snd (k SOL_SOCKET SO_REUSEADDR) = 1)) \<and>
   ((Socket_reuseport k = SocketIO_reuseport k) =
     (sys_ret (fst (k SOL_SOCKET SO_REUSEPORT)) = - 1 \<or>
      snd (k SOL_SOCKET SO_REUSEPORT) = 0 \<or> snd (k SOL_SOCKET SO_REUSEPORT) = 1)) \<and>
   ((Socket_broadcast k = SocketIO_broadcast k) =
     (sys_ret (fst (k SOL_SOCKET SO_BROADCAST)) = - 1 \<or>
      snd (k SOL_SOCKET SO_BROADCAST) = 0 \<or> snd (k SOL_SOCKET SO_BROADCAST) = 1)) \<and>
   ((Socket_keepalive k = SocketIO_keepalive k) =
     (sys_ret (fst (k SOL_SOCKET SO_KEEPALIVE)) = - 1 \<or>
      snd (k SOL_SOCKET SO_KEEPALIVE) = 0 \<or> snd (k SOL_SOCKET SO_KEEPALIVE) = 1))"
  by (simp add: Socket_reuseaddr_def SocketIO_reuseaddr_def
      Socket_reuseport_def SocketIO_reuseport_def Socket_broadcast_def SocketIO_broadcast_def
      Socket_keepalive_def SocketIO_keepalive_def getter_bodies_agree split: prod.split)

theorem getters_agree_iff_zero_or_one_witness:
  "Socket_reuseaddr reports_one = SocketIO_reuseaddr reports_one \<and>
   Socket_reuseport reports_one = SocketIO_reuseport reports_one \<and>
   Socket_broadcast reports_one = SocketIO_broadcast reports_one \<and>
   Socket_keepalive reports_one = SocketIO_keepalive reports_one \<and>
   Socket_reuseaddr reports_one = Inr True"
  using getters_agree_iff_zero_or_one [of reports_one]
  by (simp add: reports_one_def Socket_reuseaddr_def Socket_get_sock_opt_def)

section \<open>sync\_close\<close>

text \<open>
  Claim C2 says the close in the destructor is retried when it fails with
  \<^verbatim>\<open>EINTR\<close>, at most 3 times. The loop tests the return value of \<^verbatim>\<open>::close\<close>
  against \<^verbatim>\<open>EINTR\<close>, not \<^verbatim>\<open>errno\<close>: a close interrupted by a signal answers
  -1, so it is called once and the failure is logged, although the next call would have
  succeeded.
\<close>

theorem sync_close_EINTR_not_retried:
  "sync_close close_interrupted_once = \<lparr> close_calls = 1, logged_error = Some (- 1, EINTR) \<rparr>"
  by (simp add: sync_close_def sync_close_loop.simps close_interrupted_once_def EINTR_def)

text \<open>
  What the loop does hold to: it calls \<^verbatim>\<open>::close\<close> at least once and at most
  \<open>cnt + 1\<close> times, so \<^verbatim>\<open>sync_close\<close> makes at most 4 calls (3 retries); it stops
  after the first call unless that call's return value is the number \<^verbatim>\<open>EINTR\<close>;
  and 4 calls are reached when every return value is \<^verbatim>\<open>EINTR\<close>.
\<close>

lemma sync_close_loop_calls:
  "close_calls (sync_close_loop k i cnt) \<le> Suc i + unat cnt \<and>
   Suc i \<le> close_calls (sync_close_loop k i cnt)"
proof (induction k i cnt rule: sync_close_loop.induct)
  case (1 k i cnt)
  show ?case
  proof (cases "sys_ret (k i) \<noteq> 0 \<and> sys_ret (k i) = EINTR \<and> cnt \<noteq> 0")
    case True
    then have "unat (cnt - 1) = unat cnt - 1" and "0 < unat cnt"
      by (simp_all add: unat_minus_one unat_gt_0)
    with True "1.IH" [of "sys_ret (k i)"] show ?thesis
      by (subst (1 2) sync_close_loop.simps) (auto simp: Let_def)
  next
    case False
    then show ?thesis
      by (subst (1 2) sync_close_loop.simps) (auto simp: Let_def)
  qed
qed

lemma sync_close_at_most_four_calls: "close_calls (sync_close k) \<le> 4"
  using sync_close_loop_calls [of k 0 3] by (simp add: sync_close_def)

lemma sync_close_single_call:
  "sys_ret (k 0) \<noteq> EINTR \<Longrightarrow> close_calls (sync_close k) = 1"
  by (subst sync_close_def, subst sync_close_loop.simps) (simp add: Let_def)

lemma sync_close_four_calls: "close_calls (sync_close close_returns_EINTR) = 4"
  by (simp add: sync_close_def sync_close_loop.simps close_returns_EINTR_def EINTR_def Let_def)

section \<open>Closing a Socket's descriptor\<close>

text \<open>
  Replacing one slot of the table takes the old slot's open descriptor out of the owned
  ones and puts the new slot's in.
\<close>

lemma owned_update:
  "i < length xs \<Longrightarrow>
   mset (owned (xs[i := v])) + mset (owned [xs ! i]) = mset (owned xs) + mset (owned [v])"
proof (induction xs arbitrary: i)
  case Nil
  then show ?case by simp
next
  case (Cons x xs)
  show ?case
  proof (cases i)
    case 0
    then show ?thesis by (cases x; cases v) simp_all
  next
    case (Suc j)
    with Cons.prems have "j < length xs" by simp
    from Cons.IH [OF this] Suc show ?thesis by (cases x) simp_all
  qed
qed

lemma closed_fds_append:
  "closed_fds (s\<lparr> objs := xs, closed := closed s @ close_if_open f \<rparr>) = closed_fds s @ close_if_open f"
  "closed_fds (s\<lparr> objs := xs, closed := closed s @ [f] \<rparr>) = closed_fds s @ close_if_open f"
  "closed_fds (s\<lparr> objs := xs \<rparr>) = closed_fds s"
  by (simp_all add: closed_fds_def close_if_open_def)

lemma live_SomeD: "live s a = Some f \<Longrightarrow> a < length (objs s) \<and> objs s ! a = Some f"
  by (simp add: live_def split: if_splits)

text \<open>
  Every operation keeps the descriptors of the state: it only moves an open descriptor
  from one object to another, or from an object to the closed ones.
\<close>

lemma step_Destroy:
  assumes "socket_step (Destroy a) s = Some s'"
  shows "descriptors s' = descriptors s"
proof -
  from assms obtain f where f: "live s a = Some f"
    and s': "s' = s\<lparr> objs := (objs s)[a := None], closed := closed s @ close_if_open f \<rparr>"
    by (auto split: option.splits)
  from live_SomeD [OF f] owned_update [of a "objs s" None]
  have "mset (owned ((objs s)[a := None])) + mset (close_if_open f) = mset (owned (objs s))"
    by simp
  then show ?thesis
    by (simp add: s' descriptors_def closed_fds_append ac_simps)
qed

lemma step_Move_construct:
  assumes "socket_step (Move_construct b a) s = Some s'"
  shows "descriptors s' = descriptors s"
proof -
  from assms obtain f where f: "live s a = Some f"
    and b: "b < length (objs s)" "objs s ! b = None"
    and s': "s' = s\<lparr> objs := (objs s)[b := Some f, a := Some (- 1)] \<rparr>"
    by (auto split: option.splits if_splits)
  from live_SomeD [OF f] b have ab: "a \<noteq> b" and a: "a < length (objs s)" "objs s ! a = Some f"
    by auto
  have 1: "mset (owned ((objs s)[b := Some f])) = mset (owned (objs s)) + mset (close_if_open f)"
    using owned_update [of b "objs s" "Some f"] b by simp
  have 2: "mset (owned ((objs s)[b := Some f, a := Some (- 1)])) + mset (close_if_open f)
           = mset (owned ((objs s)[b := Some f]))"
    using owned_update [of a "(objs s)[b := Some f]" "Some (- 1)"] a ab
    by (simp add: close_if_open_def)
  from 1 2 have "mset (owned ((objs s)[b := Some f, a := Some (- 1)])) = mset (owned (objs s))"
    by simp
  then show ?thesis
    by (simp add: s' descriptors_def closed_fds_append)
qed

lemma step_Move_assign:
  assumes "socket_step (Move_assign b a) s = Some s'"
  shows "descriptors s' = descriptors s"
proof -
  from assms obtain f g where f: "live s a = Some f" and g: "live s b = Some g"
    and s': "s' = s\<lparr> objs := (objs s)[b := Some f, a := Some (- 1)],
                       closed := closed s @ close_if_open g \<rparr>"
    by (auto split: option.splits)
  from live_SomeD [OF f] live_SomeD [OF g]
  have a: "a < length (objs s)" "objs s ! a = Some f" and b: "b < length (objs s)" "objs s ! b = Some g"
    by auto
  have 1: "mset (owned ((objs s)[b := Some f])) + mset (close_if_open g)
           = mset (owned (objs s)) + mset (close_if_open f)"
    using owned_update [of b "objs s" "Some f"] b by simp
  have 2: "mset (owned ((objs s)[b := Some f, a := Some (- 1)])) + mset (close_if_open f)
           = mset (owned ((objs s)[b := Some f]))"
    using owned_update [of a "(objs s)[b := Some f]" "Some (- 1)"] a b
    by (cases "a = b") (simp_all add: close_if_open_def)
  have "(mset (owned ((objs s)[b := Some f, a := Some (- 1)])) + mset (close_if_open g))
          + mset (close_if_open f)
      = (mset (owned ((objs s)[b := Some f, a := Some (- 1)])) + mset (close_if_open f))
          + mset (close_if_open g)"
    by (simp add: ac_simps)
  also have "\<dots> = mset (owned ((objs s)[b := Some f])) + mset (close_if_open g)"
    by (simp only: 2)
  also have "\<dots> = mset (owned (objs s)) + mset (close_if_open f)"
    by (rule 1)
  finally have "mset (owned ((objs s)[b := Some f, a := Some (- 1)])) + mset (close_if_open g)
      = mset (owned (objs s))"
    by (rule add_right_imp_eq)
  then show ?thesis
    by (simp add: s' descriptors_def closed_fds_append ac_simps)
qed

lemma step_Close:
  assumes "socket_step (Close a) s = Some s'"
  shows "descriptors s' = descriptors s"
proof -
  from assms obtain f where f: "live s a = Some f"
    and s': "s' = s\<lparr> objs := (objs s)[a := Some (- 1)], closed := closed s @ [f] \<rparr>"
    by (auto split: option.splits)
  from live_SomeD [OF f] owned_update [of a "objs s" "Some (- 1)"]
  have "mset (owned ((objs s)[a := Some (- 1)])) + mset (close_if_open f) = mset (owned (objs s))"
    by (simp add: close_if_open_def)
  then show ?thesis
    by (simp add: s' descriptors_def closed_fds_append ac_simps)
qed

lemma socket_step_conserves:
  "socket_step x s = Some s' \<Longrightarrow> descriptors s' = descriptors s"
  by (cases x) (blast intro: step_Destroy step_Move_construct step_Move_assign step_Close)+

lemma socket_run_conserves:
  "socket_run xs s = Some s' \<Longrightarrow> descriptors s' = descriptors s"
proof (induction xs arbitrary: s)
  case Nil
  then show ?case by simp
next
  case (Cons x xs)
  then obtain s1 where 1: "socket_step x s = Some s1" and 2: "socket_run xs s1 = Some s'"
    by (auto split: option.splits)
  from Cons.IH [OF 2] socket_step_conserves [OF 1] show ?case by simp
qed

lemma sole_owners_descriptors:
  assumes "descriptors s' = descriptors s"
  shows "sole_owners s' = sole_owners s"
proof -
  from assms have "mset (owned (objs s') @ closed_fds s') = mset (owned (objs s) @ closed_fds s)"
    by (simp add: descriptors_def)
  then show ?thesis
    unfolding sole_owners_def by (rule mset_eq_imp_distinct_iff)
qed

text \<open>
  What each operation leaves in the objects it touches: the source of a move and a closed
  socket hold -1 afterwards, the target of a move holds the source's descriptor, and the
  destructor and move assignment hand the old descriptor to \<^verbatim>\<open>sync_close\<close> only
  when it is not negative.
\<close>

lemma socket_step_effects:
  "socket_step (Close a) s = Some s' \<Longrightarrow> live s' a = Some (- 1)"
  "socket_step (Move_construct b a) s = Some s' \<Longrightarrow>
     live s' a = Some (- 1) \<and> live s' b = live s a \<and> closed s' = closed s"
  "socket_step (Move_assign b a) s = Some s' \<Longrightarrow>
     live s' a = Some (- 1) \<and> (a \<noteq> b \<longrightarrow> live s' b = live s a) \<and>
     closed s' = closed s @ (if 0 <=s the (live s b) then [the (live s b)] else [])"
  "socket_step (Destroy a) s = Some s' \<Longrightarrow>
     live s' a = None \<and>
     closed s' = closed s @ (if 0 <=s the (live s a) then [the (live s a)] else [])"
  by (auto simp: live_def close_if_open_def nth_list_update split: option.splits if_splits)

text \<open>
  Claim C8. Start from sockets of which no two hold the same open descriptor and none
  holds one that was closed before (and nothing was closed twice before). After any sequence of \<^verbatim>\<open>close()\<close>, move
  construction, move assignment and destruction on live objects, the same holds, no open
  descriptor has been handed to \<^verbatim>\<open>sync_close\<close> or \<^verbatim>\<open>async::close\<close> twice,
  and no live object holds a descriptor that was closed.
\<close>

theorem socket_fd_closed_at_most_once:
  assumes "sole_owners s" and "socket_run xs s = Some s'"
  shows "sole_owners s' \<and> distinct (closed_fds s') \<and>
         (\<forall>f \<in> set (owned (objs s')). f \<notin> set (closed_fds s'))"
proof -
  from sole_owners_descriptors [OF socket_run_conserves [OF assms(2)]] assms(1)
  have "sole_owners s'"
    by simp
  then show ?thesis
    by (auto simp: sole_owners_def)
qed

theorem socket_fd_closed_at_most_once_witness:
  "sole_owners two_sockets \<and>
   socket_run moves_and_closes two_sockets = Some \<lparr> objs = [None, None, None], closed = [3, 4, - 1] \<rparr> \<and>
   closed_fds \<lparr> objs = [None, None, None], closed = [3, 4, - 1] \<rparr> = [3, 4] \<and>
   distinct (closed_fds \<lparr> objs = [None, None, None], closed = [3, 4, - 1] \<rparr>)"
  using socket_fd_closed_at_most_once [of two_sockets moves_and_closes
      "\<lparr> objs = [None, None, None], closed = [3, 4, - 1] \<rparr>"]
  by (simp add: moves_and_closes_def two_sockets_def live_def close_if_open_def word_sle_eq
      sole_owners_def closed_fds_def)

section \<open>write\_all\<close>

text \<open>
  With a write that always reports 0 bytes the loop can only return when nothing remains
  to be written.
\<close>

lemma zero_writer_returns_only_at_zero:
  assumes "write_all_loop w tr hw rem = Some y"
  shows "w = zero_writer \<longrightarrow> rem = 0"
proof (rule write_all_loop.raw_induct
    [where P = "\<lambda>w tr hw rem y. w = zero_writer \<longrightarrow> rem = 0", OF _ assms])
  fix f :: "writer \<Rightarrow> (error + size_t) list \<Rightarrow> size_t \<Rightarrow> size_t
      \<Rightarrow> ((error + unit) \<times> size_t \<times> (error + size_t) list) option"
  fix w tr hw rem y
  assume IH: "\<And>w tr hw rem y. f w tr hw rem = Some y \<Longrightarrow> w = zero_writer \<longrightarrow> rem = 0"
    and eq: "(if 0 < rem then
                (case w (length tr) hw rem of
                   Inl e \<Rightarrow> Some (Inl e, hw, tr @ [Inl e])
                 | Inr v \<Rightarrow> f w (tr @ [Inr v]) (hw + v) (rem - v))
              else Some (Inr (), hw, tr)) = Some y"
  show "w = zero_writer \<longrightarrow> rem = 0"
  proof
    assume w: "w = zero_writer"
    show "rem = 0"
    proof (cases "0 < rem")
      case True
      with eq w have "f w (tr @ [Inr 0]) (hw + 0) (rem - 0) = Some y"
        by (simp add: zero_writer_def)
      from IH [OF this] w show ?thesis by simp
    next
      case False
      then show ?thesis by (simp add: word_gt_0)
    qed
  qed
qed

text \<open>
  Claim C10 says \<^verbatim>\<open>write_all\<close> terminates for every buffer and every sequence of
  results of the underlying write. On a 1-byte span, with a write that reports 0 bytes
  written each time, \<^verbatim>\<open>remaining_bytes\<close> stays 1 and the loop never returns.
\<close>

theorem write_all_zero_writer_never_returns: "write_all zero_writer 1 = None"
proof (cases "write_all zero_writer 1")
  case None
  then show ?thesis .
next
  case (Some y)
  then have "(1 :: size_t) = 0"
    unfolding write_all_def using zero_writer_returns_only_at_zero by blast
  then show ?thesis by simp
qed

text \<open>
  One successful write of at least 1 and at most \<open>rem\<close> bytes: what remains gets
  smaller, and adding the bytes written afterwards does not wrap around.
\<close>

lemma progress_step:
  fixes v rem b :: size_t
  assumes "0 < v" and "v \<le> rem"
  shows "unat (rem - v) < unat rem"
    and "unat b \<le> unat (rem - v) \<Longrightarrow> unat (v + b) = unat v + unat b"
    and "unat b \<le> unat (rem - v) \<Longrightarrow> unat (v + b) \<le> unat rem"
    and "unat b < unat (rem - v) \<Longrightarrow> unat (v + b) < unat rem"
    and "Suc (unat (rem - v)) \<le> unat rem"
proof -
  from assms have v: "0 < unat v" "unat v \<le> unat rem"
    by (simp_all add: word_less_nat_alt word_le_nat_alt)
  have sub: "unat (rem - v) = unat rem - unat v"
    using assms(2) by (rule unat_sub)
  have bound: "unat rem < 2 ^ 64"
    using unsigned_less [of rem, where ?'a = nat] by simp
  show "unat (rem - v) < unat rem" "Suc (unat (rem - v)) \<le> unat rem"
    using v sub by simp_all
  {
    assume b: "unat b \<le> unat (rem - v)"
    with v sub bound have "unat v + unat b < 2 ^ LENGTH(64)" by simp
    then show eq: "unat (v + b) = unat v + unat b"
      by (simp only: unat_add_lem)
    from eq b v sub show "unat (v + b) \<le> unat rem" by simp
  }
  {
    assume b: "unat b < unat (rem - v)"
    with v sub bound have "unat v + unat b < 2 ^ LENGTH(64)" by simp
    then have eq: "unat (v + b) = unat v + unat b"
      by (simp only: unat_add_lem)
    from eq b v sub show "unat (v + b) < unat rem" by simp
  }
qed

text \<open>
  The loop, started with \<open>rem\<close> bytes remaining, returns; the results it received are
  what \<open>w\<close> answered call by call; all but the last are successes; it yields success
  with exactly \<open>rem\<close> more bytes written, or the error of its last call with fewer.
\<close>

lemma bytes_single [simp]: "bytes [Inl e] = 0" "bytes [Inr v] = v"
  by simp_all

lemma write_all_loop_returns:
  assumes mp: "makes_progress w"
  shows "\<exists>r tr'.
           write_all_loop w tr hw rem = Some (r, hw + bytes tr', tr @ tr') \<and>
           (\<forall>i<length tr'.
              tr' ! i = w (length tr + i) (hw + bytes (take i tr')) (rem - bytes (take i tr'))) \<and>
           (\<forall>x \<in> set (butlast tr'). \<not> isl x) \<and>
           (case r of
              Inr u \<Rightarrow> bytes tr' = rem \<and> (\<forall>x \<in> set tr'. \<not> isl x)
            | Inl e \<Rightarrow> tr' \<noteq> [] \<and> last tr' = Inl e \<and> unat (bytes tr') < unat rem) \<and>
           unat (bytes tr') \<le> unat rem \<and> length tr' \<le> unat rem"
proof (induction "unat rem" arbitrary: tr hw rem rule: less_induct)
  case less
  show ?case
  proof (cases "0 < rem")
    case False
    then have "rem = 0" by (simp add: word_gt_0)
    then show ?thesis
      by (subst write_all_loop.simps) (simp add: exI [of _ "Inr ()"])
  next
    case True
    show ?thesis
    proof (cases "w (length tr) hw rem")
      case (Inl e)
      from True have "0 < unat rem" by (simp add: word_less_nat_alt)
      with True Inl show ?thesis
        by (subst write_all_loop.simps)
           (auto intro!: exI [of _ "Inl e"] exI [of _ "[Inl e]"])
    next
      case (Inr v)
      from mp True Inr have v: "0 < v" "v \<le> rem"
        unfolding makes_progress_def by blast+
      note ps = progress_step [OF v]
      from less [OF ps(1), of "tr @ [Inr v]" "hw + v"]
      obtain r tr2 where
        run: "write_all_loop w (tr @ [Inr v]) (hw + v) (rem - v)
                = Some (r, hw + v + bytes tr2, (tr @ [Inr v]) @ tr2)"
        and ans: "\<forall>i<length tr2.
              tr2 ! i = w (length (tr @ [Inr v]) + i) (hw + v + bytes (take i tr2))
                          (rem - v - bytes (take i tr2))"
        and oks: "\<forall>x \<in> set (butlast tr2). \<not> isl x"
        and res: "case r of
              Inr u \<Rightarrow> bytes tr2 = rem - v \<and> (\<forall>x \<in> set tr2. \<not> isl x)
            | Inl e \<Rightarrow> tr2 \<noteq> [] \<and> last tr2 = Inl e \<and> unat (bytes tr2) < unat (rem - v)"
        and le: "unat (bytes tr2) \<le> unat (rem - v)"
        and len: "length tr2 \<le> unat (rem - v)"
        by blast
      let ?tr' = "Inr v # tr2"
      have 1: "write_all_loop w tr hw rem = Some (r, hw + bytes ?tr', tr @ ?tr')"
        using True Inr run by (subst write_all_loop.simps) (simp add: ac_simps)
      have 2: "\<forall>i<length ?tr'.
              ?tr' ! i = w (length tr + i) (hw + bytes (take i ?tr')) (rem - bytes (take i ?tr'))"
      proof (intro allI impI)
        fix i assume "i < length ?tr'"
        then show "?tr' ! i = w (length tr + i) (hw + bytes (take i ?tr')) (rem - bytes (take i ?tr'))"
        proof (cases i)
          case 0
          with Inr show ?thesis by simp
        next
          case (Suc j)
          with \<open>i < length ?tr'\<close> have "j < length tr2" by simp
          with ans have "tr2 ! j = w (length (tr @ [Inr v]) + j) (hw + v + bytes (take j tr2))
                          (rem - v - bytes (take j tr2))" by blast
          with Suc show ?thesis by (simp add: ac_simps diff_diff_eq)
        qed
      qed
      have 3: "\<forall>x \<in> set (butlast ?tr'). \<not> isl x"
        using oks by simp
      have 4: "case r of
              Inr u \<Rightarrow> bytes ?tr' = rem \<and> (\<forall>x \<in> set ?tr'. \<not> isl x)
            | Inl e \<Rightarrow> ?tr' \<noteq> [] \<and> last ?tr' = Inl e \<and> unat (bytes ?tr') < unat rem"
      proof (cases r)
        case (Inl e)
        with res have "tr2 \<noteq> []" "last tr2 = Inl e" "unat (bytes tr2) < unat (rem - v)"
          by simp_all
        with ps(4) Inl show ?thesis by simp
      next
        case (Inr u)
        with res show ?thesis by simp
      qed
      have 5: "unat (bytes ?tr') \<le> unat rem"
        using ps(3) [OF le] by simp
      have 6: "length ?tr' \<le> unat rem"
        using len ps(5) by simp
      from 1 2 3 4 5 6 show ?thesis by blast
    qed
  qed
qed

text \<open>
  Whatever the writes answer: if the loop returns, the results it received are what \<open>w\<close>
  answered call by call and all but the last are successes; it returns success with
  exactly \<open>rem\<close> more bytes counted (in \<^verbatim>\<open>std::size_t\<close> arithmetic), or the
  error of its last call with a different count.
\<close>

lemma write_all_loop_result:
  assumes "write_all_loop w tr hw rem = Some y"
  shows "\<exists>tr'.
           snd (snd y) = tr @ tr' \<and> fst (snd y) = hw + bytes tr' \<and>
           (\<forall>i<length tr'.
              tr' ! i = w (length tr + i) (hw + bytes (take i tr')) (rem - bytes (take i tr'))) \<and>
           (\<forall>x \<in> set (butlast tr'). \<not> isl x) \<and>
           (case fst y of
              Inr u \<Rightarrow> bytes tr' = rem \<and> (\<forall>x \<in> set tr'. \<not> isl x)
            | Inl e \<Rightarrow> tr' \<noteq> [] \<and> last tr' = Inl e \<and> bytes tr' \<noteq> rem)"
proof (rule write_all_loop.raw_induct
    [where P = "\<lambda>w tr hw rem y. \<exists>tr'.
           snd (snd y) = tr @ tr' \<and> fst (snd y) = hw + bytes tr' \<and>
           (\<forall>i<length tr'.
              tr' ! i = w (length tr + i) (hw + bytes (take i tr')) (rem - bytes (take i tr'))) \<and>
           (\<forall>x \<in> set (butlast tr'). \<not> isl x) \<and>
           (case fst y of
              Inr u \<Rightarrow> bytes tr' = rem \<and> (\<forall>x \<in> set tr'. \<not> isl x)
            | Inl e \<Rightarrow> tr' \<noteq> [] \<and> last tr' = Inl e \<and> bytes tr' \<noteq> rem)", OF _ assms])
  fix f :: "writer \<Rightarrow> (error + size_t) list \<Rightarrow> size_t \<Rightarrow> size_t
      \<Rightarrow> ((error + unit) \<times> size_t \<times> (error + size_t) list) option"
  fix w tr hw rem y
  assume IH: "\<And>w tr hw rem y. f w tr hw rem = Some y \<Longrightarrow> \<exists>tr'.
           snd (snd y) = tr @ tr' \<and> fst (snd y) = hw + bytes tr' \<and>
           (\<forall>i<length tr'.
              tr' ! i = w (length tr + i) (hw + bytes (take i tr')) (rem - bytes (take i tr'))) \<and>
           (\<forall>x \<in> set (butlast tr'). \<not> isl x) \<and>
           (case fst y of
              Inr u \<Rightarrow> bytes tr' = rem \<and> (\<forall>x \<in> set tr'. \<not> isl x)
            | Inl e \<Rightarrow> tr' \<noteq> [] \<and> last tr' = Inl e \<and> bytes tr' \<noteq> rem)"
    and eq: "(if 0 < rem then
                (case w (length tr) hw rem of
                   Inl e \<Rightarrow> Some (Inl e, hw, tr @ [Inl e])
                 | Inr v \<Rightarrow> f w (tr @ [Inr v]) (hw + v) (rem - v))
              else Some (Inr (), hw, tr)) = Some y"
  show "\<exists>tr'.
           snd (snd y) = tr @ tr' \<and> fst (snd y) = hw + bytes tr' \<and>
           (\<forall>i<length tr'.
              tr' ! i = w (length tr + i) (hw + bytes (take i tr')) (rem - bytes (take i tr'))) \<and>
           (\<forall>x \<in> set (butlast tr'). \<not> isl x) \<and>
           (case fst y of
              Inr u \<Rightarrow> bytes tr' = rem \<and> (\<forall>x \<in> set tr'. \<not> isl x)
            | Inl e \<Rightarrow> tr' \<noteq> [] \<and> last tr' = Inl e \<and> bytes tr' \<noteq> rem)"
  proof (cases "0 < rem")
    case False
    then have "rem = 0" by (simp add: word_gt_0)
    with eq have "y = (Inr (), hw, tr)" by simp
    with \<open>rem = 0\<close> show ?thesis
      by (intro exI [of _ "[]"]) simp
  next
    case True
    show ?thesis
    proof (cases "w (length tr) hw rem")
      case (Inl e)
      with eq True have "y = (Inl e, hw, tr @ [Inl e])" by simp
      with True Inl show ?thesis
        by (intro exI [of _ "[Inl e]"]) auto
    next
      case (Inr v)
      with eq True have "f w (tr @ [Inr v]) (hw + v) (rem - v) = Some y" by simp
      from IH [OF this] obtain tr2 where
        trf: "snd (snd y) = (tr @ [Inr v]) @ tr2"
        and hwf: "fst (snd y) = hw + v + bytes tr2"
        and ans: "\<forall>i<length tr2.
              tr2 ! i = w (length (tr @ [Inr v]) + i) (hw + v + bytes (take i tr2))
                          (rem - v - bytes (take i tr2))"
        and oks: "\<forall>x \<in> set (butlast tr2). \<not> isl x"
        and res: "case fst y of
              Inr u \<Rightarrow> bytes tr2 = rem - v \<and> (\<forall>x \<in> set tr2. \<not> isl x)
            | Inl e \<Rightarrow> tr2 \<noteq> [] \<and> last tr2 = Inl e \<and> bytes tr2 \<noteq> rem - v"
        by blast
      let ?tr' = "Inr v # tr2"
      have 1: "snd (snd y) = tr @ ?tr'" "fst (snd y) = hw + bytes ?tr'"
        using trf hwf by (simp_all add: ac_simps)
      have 2: "\<forall>i<length ?tr'.
              ?tr' ! i = w (length tr + i) (hw + bytes (take i ?tr')) (rem - bytes (take i ?tr'))"
      proof (intro allI impI)
        fix i assume i: "i < length ?tr'"
        show "?tr' ! i = w (length tr + i) (hw + bytes (take i ?tr')) (rem - bytes (take i ?tr'))"
        proof (cases i)
          case 0
          with Inr show ?thesis by simp
        next
          case (Suc j)
          with i have "j < length tr2" by simp
          with ans have "tr2 ! j = w (length (tr @ [Inr v]) + j) (hw + v + bytes (take j tr2))
                          (rem - v - bytes (take j tr2))" by blast
          with Suc show ?thesis by (simp add: ac_simps diff_diff_eq)
        qed
      qed
      have 3: "\<forall>x \<in> set (butlast ?tr'). \<not> isl x"
        using oks by simp
      have 4: "case fst y of
              Inr u \<Rightarrow> bytes ?tr' = rem \<and> (\<forall>x \<in> set ?tr'. \<not> isl x)
            | Inl e \<Rightarrow> ?tr' \<noteq> [] \<and> last ?tr' = Inl e \<and> bytes ?tr' \<noteq> rem"
      proof (cases "fst y")
        case (Inl e)
        with res have a: "tr2 \<noteq> []" "last tr2 = Inl e" "bytes tr2 \<noteq> rem - v"
          by simp_all
        from a(3) have "v + bytes tr2 \<noteq> rem"
          by (auto simp: algebra_simps)
        with a Inl show ?thesis by simp
      next
        case (Inr u)
        with res show ?thesis by (auto simp: algebra_simps)
      qed
      from 1 2 3 4 show ?thesis by blast
    qed
  qed
qed

text \<open>
  Claim C10, amended. Whatever the underlying writes answer, when \<^verbatim>\<open>write_all\<close>
  returns, the bytes it has counted as written are the sum of what the writes reported
  (as \<^verbatim>\<open>std::size_t\<close>); it yields success exactly when that sum equals the span's
  size; otherwise it yields the error of the last write it made, unchanged, and every write
  before that one succeeded, so this is the first write error. And it does return, after
  at most as many writes as the span has bytes, if every successful write that is asked
  for at least one byte reports at least one byte and at most the bytes asked for.
\<close>

theorem write_all_result_and_termination:
  "(\<forall>r hw tr. write_all w n = Some (r, hw, tr) \<longrightarrow>
      hw = bytes tr \<and> answers w n tr \<and>
      (r = Inr () \<longleftrightarrow> bytes tr = n) \<and>
      (\<forall>e. r = Inl e \<longleftrightarrow> tr \<noteq> [] \<and> last tr = Inl e) \<and>
      (\<forall>x \<in> set (butlast tr). \<not> isl x)) \<and>
   (makes_progress w \<longrightarrow>
      (\<exists>r tr. write_all w n = Some (r, bytes tr, tr) \<and> length tr \<le> unat n))"
proof (intro conjI allI impI)
  fix r hw tr
  assume "write_all w n = Some (r, hw, tr)"
  then have "write_all_loop w [] 0 n = Some (r, hw, tr)"
    by (simp add: write_all_def)
  from write_all_loop_result [OF this]
  have hw: "hw = bytes tr"
    and ans: "\<forall>i<length tr. tr ! i = w i (bytes (take i tr)) (n - bytes (take i tr))"
    and oks: "\<forall>x \<in> set (butlast tr). \<not> isl x"
    and res: "case r of
              Inr u \<Rightarrow> bytes tr = n \<and> (\<forall>x \<in> set tr. \<not> isl x)
            | Inl e \<Rightarrow> tr \<noteq> [] \<and> last tr = Inl e \<and> bytes tr \<noteq> n"
    by auto
  show "hw = bytes tr" by (rule hw)
  show "answers w n tr" using ans by (simp add: answers_def)
  show "r = Inr () \<longleftrightarrow> bytes tr = n"
    using res by (cases r) auto
  show "\<forall>x \<in> set (butlast tr). \<not> isl x" by (rule oks)
  fix e
  show "r = Inl e \<longleftrightarrow> tr \<noteq> [] \<and> last tr = Inl e"
  proof (cases r)
    case (Inl e')
    with res show ?thesis by auto
  next
    case (Inr u)
    with res have "\<forall>x \<in> set tr. \<not> isl x" by simp
    then have "tr \<noteq> [] \<Longrightarrow> last tr \<noteq> Inl e"
      by (metis last_in_set sum.disc(1))
    with Inr show ?thesis by auto
  qed
next
  assume "makes_progress w"
  from write_all_loop_returns [OF this, of "[]" 0 n]
  show "\<exists>r tr. write_all w n = Some (r, bytes tr, tr) \<and> length tr \<le> unat n"
    unfolding write_all_def by auto
qed

lemma makes_progress_chunk2_then_EPIPE: "makes_progress chunk2_then_EPIPE"
proof -
  have "0 < min len 2 \<and> min len 2 \<le> len" if "0 < len" for len :: size_t
    using that by (auto simp: min_def)
  then show ?thesis
    by (auto simp: makes_progress_def chunk2_then_EPIPE_def split: if_splits)
qed

theorem write_all_result_and_termination_witness:
  "write_all stalls_twice 2 = Some (Inr (), 2, [Inr 0, Inr 0, Inr 2]) \<and>
   bytes [Inr 0, Inr 0, Inr 2] = 2 \<and>
   answers stalls_twice 2 [Inr 0, Inr 0, Inr 2] \<and>
   write_all chunk2_then_EPIPE 5
     = Some (Inl (SysError 32), 4, [Inr 2, Inr 2, Inl (SysError 32)]) \<and>
   bytes [Inr 2, Inr 2, Inl (SysError 32)] = 4 \<and>
   answers chunk2_then_EPIPE 5 [Inr 2, Inr 2, Inl (SysError 32)] \<and>
   makes_progress chunk2_then_EPIPE \<and>
   (\<exists>r tr. write_all chunk2_then_EPIPE 3 = Some (r, bytes tr, tr) \<and> length tr \<le> 3) \<and>
   write_all chunk2_then_EPIPE 3 = Some (Inr (), 3, [Inr 2, Inr 1])"
proof -
  have mp: "makes_progress chunk2_then_EPIPE"
    by (rule makes_progress_chunk2_then_EPIPE)
  have s2: "write_all stalls_twice 2 = Some (Inr (), 2, [Inr 0, Inr 0, Inr 2])"
    by (simp add: write_all_def write_all_loop.simps stalls_twice_def)
  have c3: "write_all chunk2_then_EPIPE 3 = Some (Inr (), 3, [Inr 2, Inr 1])"
    by (simp add: write_all_def write_all_loop.simps chunk2_then_EPIPE_def)
  have c5: "write_all chunk2_then_EPIPE 5
             = Some (Inl (SysError 32), 4, [Inr 2, Inr 2, Inl (SysError 32)])"
    by (simp add: write_all_def write_all_loop.simps chunk2_then_EPIPE_def make_sys_error_def)
  from write_all_result_and_termination [of stalls_twice 2] s2
  have a2: "answers stalls_twice 2 [Inr 0, Inr 0, Inr 2]"
    by blast
  from write_all_result_and_termination [of chunk2_then_EPIPE 5] c5
  have a5: "answers chunk2_then_EPIPE 5 [Inr 2, Inr 2, Inl (SysError 32)]"
    by blast
  from write_all_result_and_termination [of chunk2_then_EPIPE 3] mp
  have t3: "\<exists>r tr. write_all chunk2_then_EPIPE 3 = Some (r, bytes tr, tr) \<and> length tr \<le> 3"
    by simp
  from s2 c3 c5 a2 a5 t3 mp show ?thesis by simp
qed

end
